theory Spec2Isabelle
  imports Main
begin

section \<open>JavaScript objects as ordered property lists\<close>

text \<open>
  A plain JavaScript object with string keys is modelled by the list of its own
  properties in the order in which \<^verbatim>\<open>Object.keys\<close>, \<^verbatim>\<open>Object.entries\<close> and
  \<^verbatim>\<open>for-in\<close> enumerate them: first the keys that are array indices (canonical decimal
  numerals below \<open>2^32 - 1\<close>) in ascending numeric order, then every other string key in
  the order of creation. Symbol keys are outside the model.

  The objects of this program are created by \<^verbatim>\<open>{}\<close> and inherit the accessor
  \<^verbatim>\<open>__proto__\<close> from \<^verbatim>\<open>Object.prototype\<close>. An assignment to the key \<^verbatim>\<open>__proto__\<close>
  that finds no own property of that name runs the inherited setter: it creates no own
  property (it replaces the prototype, or does nothing for a value that is not an
  object). The program reads own properties only, so the prototype is not modelled.
\<close>

type_synonym 'v object = "(string \<times> 'v) list"

definition digit :: "char \<Rightarrow> bool" where
  "digit c = (c \<in> set ''0123456789'')"

definition digit_val :: "char \<Rightarrow> nat" where
  "digit_val c = of_char c - 48"

definition numeral_val :: "string \<Rightarrow> nat" where
  "numeral_val s = foldl (\<lambda>n c. 10 * n + digit_val c) 0 s"

definition array_index :: "string \<Rightarrow> nat option" where
  "array_index s =
     (if s = [] then None
      else if \<not> list_all digit s then None
      else if hd s = CHR ''0'' \<and> length s \<noteq> 1 then None
      else if numeral_val s < 4294967295 then Some (numeral_val s)
      else None)"

text \<open>\<open>key_before k k'\<close>: a newly created key \<open>k\<close> is enumerated before the existing key \<open>k'\<close>.\<close>

definition key_before :: "string \<Rightarrow> string \<Rightarrow> bool" where
  "key_before k k' =
     (case array_index k of
        None \<Rightarrow> False
      | Some i \<Rightarrow> (case array_index k' of None \<Rightarrow> True | Some j \<Rightarrow> i < j))"

fun insert_key :: "string \<Rightarrow> 'v \<Rightarrow> 'v object \<Rightarrow> 'v object" where
  "insert_key k v [] = [(k, v)]"
| "insert_key k v ((k', v') # ps) =
     (if key_before k k' then (k, v) # (k', v') # ps else (k', v') # insert_key k v ps)"

definition has_own :: "'v object \<Rightarrow> string \<Rightarrow> bool" where
  "has_own obj k = (k \<in> set (map fst obj))"

definition obj_get :: "'v object \<Rightarrow> string \<Rightarrow> 'v option" where
  "obj_get obj k = map_of obj k"

text \<open>
  The assignment \<^verbatim>\<open>obj[k] = v\<close>: an existing own property keeps its place and takes
  the value; otherwise the key \<^verbatim>\<open>__proto__\<close> leaves the own properties as they are, and
  any other key becomes a new own property.
\<close>

definition obj_set :: "'v object \<Rightarrow> string \<Rightarrow> 'v \<Rightarrow> 'v object" where
  "obj_set obj k v =
     (if has_own obj k then map (\<lambda>(k', v'). if k' = k then (k', v) else (k', v')) obj
      else if k = ''__proto__'' then obj
      else insert_key k v obj)"

definition Object_keys :: "'v object \<Rightarrow> string list" where
  "Object_keys obj = map fst obj"

definition Object_entries :: "'v object \<Rightarrow> (string \<times> 'v) list" where
  "Object_entries obj = obj"

section \<open>Library operations used by the codec\<close>

text \<open>\<^verbatim>\<open>Array.groupBy\<close>: one non-empty array per key, elements in input order.\<close>

definition groupBy :: "'a list \<Rightarrow> ('a \<Rightarrow> string) \<Rightarrow> 'a list object" where
  "groupBy self f =
     foldl (\<lambda>out a. let k = f a in
              (case obj_get out k of
                 Some g \<Rightarrow> obj_set out k (g @ [a])
               | None \<Rightarrow> obj_set out k [a])) [] self"

text \<open>\<^verbatim>\<open>Record.fromIterableWith\<close>: assign every produced pair to a fresh object.\<close>

definition fromIterableWith :: "'a list \<Rightarrow> ('a \<Rightarrow> string \<times> 'b) \<Rightarrow> 'b object" where
  "fromIterableWith self f = foldl (\<lambda>out a. obj_set out (fst (f a)) (snd (f a))) [] self"

text \<open>\<^verbatim>\<open>Record.reduce\<close>: fold over the own keys in enumeration order.\<close>

definition Record_reduce :: "'v object \<Rightarrow> 'z \<Rightarrow> ('z \<Rightarrow> 'v \<Rightarrow> string \<Rightarrow> 'z) \<Rightarrow> 'z" where
  "Record_reduce self zero f = foldl (\<lambda>out (key, v). f out v key) zero self"

section \<open>Form data\<close>

text \<open>A file is an opaque handle; a form data object is the ordered list of its entries.\<close>

datatype File = FileHandle nat

datatype FormDataEntryValue = FString string | FFile File

type_synonym FormData = "(string \<times> FormDataEntryValue) list"

definition entries :: "FormData \<Rightarrow> (string \<times> FormDataEntryValue) list" where
  "entries formData = formData"

definition append_entry :: "FormData \<Rightarrow> string \<Rightarrow> FormDataEntryValue \<Rightarrow> FormData" where
  "append_entry formData name v = formData @ [(name, v)]"

definition getAll :: "FormData \<Rightarrow> string \<Rightarrow> FormDataEntryValue list" where
  "getAll formData name = map snd (filter (\<lambda>e. fst e = name) formData)"

text \<open>
  \<^verbatim>\<open>FormDataCoercibleValue\<close>: a single value or an array of values. The static type
  \<^verbatim>\<open>FormDataRecord\<close> has entry values (strings and files) as elements.
\<close>

datatype 'a FormDataCoercibleValue = Scalar 'a | Array "'a list"

type_synonym FormDataRecord = "FormDataEntryValue FormDataCoercibleValue object"

section \<open>The record codec\<close>

definition toRecord :: "FormData \<Rightarrow> FormDataRecord" where
  "toRecord formData =
     (let grouped = groupBy (entries formData) fst
      in fromIterableWith (Object_entries grouped)
           (\<lambda>(key, entries).
              let values = map snd entries
              in (key, if length values = 1 then Scalar (values ! 0) else Array values)))"

text \<open>
  At run time \<^verbatim>\<open>fromFormDataRecord\<close> inspects values beyond its static type: it tests
  for \<^verbatim>\<open>null\<close> and \<^verbatim>\<open>undefined\<close> and passes everything that is not a file through
  \<^verbatim>\<open>String\<close>. A run-time element is therefore \<^verbatim>\<open>null\<close>, \<^verbatim>\<open>undefined\<close>, an entry value,
  or some other value \<open>x\<close>, whose string representation \<open>String x\<close> is a parameter.
\<close>

datatype 'o js_value = Null | Undefined | Entry FormDataEntryValue | Other 'o

fun nullish :: "'o js_value \<Rightarrow> bool" where
  "nullish Null = True"
| "nullish Undefined = True"
| "nullish _ = False"

text \<open>\<^verbatim>\<open>item instanceof File ? item : String(item)\<close>\<close>

fun coerce :: "('o \<Rightarrow> string) \<Rightarrow> 'o js_value \<Rightarrow> FormDataEntryValue" where
  "coerce String (Entry (FFile f)) = FFile f"
| "coerce String (Entry (FString s)) = FString s"
| "coerce String (Other x) = FString (String x)"
| "coerce String Null = FString ''null''"
| "coerce String Undefined = FString ''undefined''"

definition fromFormDataRecord ::
  "('o \<Rightarrow> string) \<Rightarrow> 'o js_value FormDataCoercibleValue object \<Rightarrow> FormData" where
  "fromFormDataRecord String input =
     Record_reduce input []
       (\<lambda>acc v key.
          (case v of
             Array items \<Rightarrow>
               foldl (\<lambda>acc item. if nullish item then acc else append_entry acc key (coerce String item))
                     acc items
           | Scalar x \<Rightarrow> if \<not> nullish x then append_entry acc key (coerce String x) else acc))"

text \<open>A statically typed record, seen as the run-time value handed to \<open>fromFormDataRecord\<close>.\<close>

definition typed :: "FormDataRecord \<Rightarrow> 'o js_value FormDataCoercibleValue object" where
  "typed r = map (\<lambda>(k, v). (k, map_FormDataCoercibleValue Entry v)) r"

section \<open>Validation issues\<close>

text \<open>
  A path segment is a property key: a string or an array position (symbol keys are
  outside the model). \<^verbatim>\<open>Array.join\<close> renders each segment with \<^verbatim>\<open>ToString\<close>; a
  number is printed in decimal.
\<close>

datatype PropertyKey = KString string | KNumber nat

fun string_of_nat :: "nat \<Rightarrow> string" where
  "string_of_nat n =
     (if n < 10 then [char_of (48 + n)]
      else string_of_nat (n div 10) @ [char_of (48 + n mod 10)])"

declare string_of_nat.simps [simp del]

fun ToString :: "PropertyKey \<Rightarrow> string" where
  "ToString (KString s) = s"
| "ToString (KNumber n) = string_of_nat n"

fun join_strings :: "string list \<Rightarrow> string \<Rightarrow> string" where
  "join_strings [] sep = []"
| "join_strings [x] sep = x"
| "join_strings (x # y # ys) sep = x @ sep @ join_strings (y # ys) sep"

definition join :: "PropertyKey list \<Rightarrow> string \<Rightarrow> string" where
  "join path sep = join_strings (map ToString path) sep"

text \<open>\<^verbatim>\<open>SingleOrNonEmpty<A>\<close>: one \<open>A\<close>, or a non-empty array of them.\<close>

datatype 'a SingleOrNonEmpty = Single 'a | NonEmpty 'a "'a list"

text \<open>\<^verbatim>\<open>Array.isArray(x) ? x : [x]\<close>\<close>

fun as_array :: "'a SingleOrNonEmpty \<Rightarrow> 'a list" where
  "as_array (Single x) = [x]"
| "as_array (NonEmpty x xs) = x # xs"

text \<open>
  The issue tree of the validator. The observed value \<^verbatim>\<open>actual\<close> has type
  \<^verbatim>\<open>unknown\<close>; \<open>None\<close> stands for \<^verbatim>\<open>undefined\<close>, which is also what the collector
  reads where the property is absent.
\<close>

datatype 'a ParseIssue =
    Pointer "PropertyKey SingleOrNonEmpty" "'a option" "'a ParseIssue"
  | Composite "'a option" "'a ParseIssue SingleOrNonEmpty"
  | Refinement "'a option" "'a ParseIssue"
  | Transformation "'a option" "'a ParseIssue"
  | Type "'a option"
  | Missing "'a option"
  | Unexpected "'a option"
  | Forbidden "'a option"

function collectActualValues :: "'a ParseIssue \<Rightarrow> PropertyKey list \<Rightarrow> (string \<times> 'a option) list" where
  "collectActualValues (Pointer p a issue) path =
     (let pathItems = as_array p;
          newPath = path @ pathItems;
          newKey = join newPath ''.''
      in [(newKey, a)] @ collectActualValues issue newPath)"
| "collectActualValues (Composite a issues) path =
     (let currentEntry = (join path ''.'', a);
          issueList = as_array issues;
          childEntries = concat (map (\<lambda>childIssue. collectActualValues childIssue path) issueList)
      in currentEntry # childEntries)"
| "collectActualValues (Refinement a issue) path =
     [(join path ''.'', a)] @ collectActualValues issue path"
| "collectActualValues (Transformation a issue) path =
     [(join path ''.'', a)] @ collectActualValues issue path"
| "collectActualValues (Type a) path = [(join path ''.'', a)]"
| "collectActualValues (Missing a) path = [(join path ''.'', a)]"
| "collectActualValues (Unexpected a) path = [(join path ''.'', a)]"
| "collectActualValues (Forbidden a) path = [(join path ''.'', a)]"
  by pat_completeness auto

termination
proof -
  have est: "size x \<le> size_SingleOrNonEmpty size s"
    if "x \<in> set (as_array s)" for x :: "'a ParseIssue" and s
  proof (cases s)
    case (Single y)
    with that show ?thesis by simp
  next
    case (NonEmpty y ys)
    show ?thesis
    proof (cases "x = y")
      case True
      with NonEmpty show ?thesis by simp
    next
      case False
      with that NonEmpty have "x \<in> set ys" by simp
      then have "size x \<le> size_list size ys"
        by (rule size_list_estimation') simp
      with NonEmpty show ?thesis by simp
    qed
  qed
  show ?thesis
    by (relation "measure (\<lambda>(issue, path). size issue)")
       (auto simp: less_Suc_eq_le dest!: est)
qed

section \<open>The formatter\<close>

text \<open>\<^verbatim>\<open>new Map(entries)\<close> and \<^verbatim>\<open>Map.get\<close>; a missing key reads as \<^verbatim>\<open>undefined\<close>.\<close>

definition Map_new :: "(string \<times> 'a option) list \<Rightarrow> (string \<rightharpoonup> 'a option)" where
  "Map_new es = foldl (\<lambda>m (k, v). m(k \<mapsto> v)) Map.empty es"

definition Map_get :: "(string \<rightharpoonup> 'a option) \<Rightarrow> string \<Rightarrow> 'a option" where
  "Map_get m k = (case m k of None \<Rightarrow> None | Some v \<Rightarrow> v)"

record ArrayFormatterIssue =
  path :: "PropertyKey list"
  message :: string

record 'a FormModelFormatterIssueValue =
  actual :: "'a option"
  message :: "string option"

type_synonym 'a FormModelFormatterResult = "'a FormModelFormatterIssueValue object"

text \<open>
  \<open>FormModelFormatter.formatIssue\<close>. The message formatter \<^verbatim>\<open>ArrayFormatter.formatIssue\<close>
  of the validation library is a parameter.
\<close>

definition formatIssue ::
  "('a ParseIssue \<Rightarrow> ArrayFormatterIssue list) \<Rightarrow> 'a ParseIssue \<Rightarrow> 'a FormModelFormatterResult" where
  "formatIssue ArrayFormatter_formatIssue issue =
     (let actualEntries = collectActualValues issue [];
          actualMap = Map_new actualEntries
      in foldl (\<lambda>result arrayIssue.
                  let key = join (path arrayIssue) ''.'';
                      actual = Map_get actualMap key
                  in obj_set result key
                       \<lparr>actual = actual, message = Some (ArrayFormatterIssue.message arrayIssue)\<rparr>)
               [] (ArrayFormatter_formatIssue issue))"

text \<open>A parse error carries the issue tree; \<open>formatError\<close> formats its issue.\<close>

datatype 'a ParseError = ParseError (issue: "'a ParseIssue")

definition formatError ::
  "('a ParseIssue \<Rightarrow> ArrayFormatterIssue list) \<Rightarrow> 'a ParseError \<Rightarrow> 'a FormModelFormatterResult" where
  "formatError ArrayFormatter_formatIssue error = formatIssue ArrayFormatter_formatIssue (issue error)"

section \<open>Field and model descriptors, decoding\<close>

text \<open>
  \<open>FormFieldModelSchema\<close> and \<open>FormModelSchema\<close> wrap their argument (the type-id tag is
  a constant and is left out). The bound \<^verbatim>\<open>I extends FormDataCoercibleValue\<close> of the
  source is a constraint of the static type system; the functions themselves do not test
  their argument.
\<close>

datatype 's FormFieldModelSchema = FormFieldModelSchema (schema: 's)

datatype 's FormModelSchema = FormModelSchema (fields: "'s FormFieldModelSchema object")

definition Record_map :: "'v object \<Rightarrow> ('v \<Rightarrow> 'w) \<Rightarrow> 'w object" where
  "Record_map self f = map (\<lambda>(k, v). (k, f v)) self"

text \<open>
  A schema is represented by its decoder. The validation library is a parameter:
  \<open>Schema_Struct\<close> composes the field schemas into the decoder of a struct, and
  \<open>Schema_transform\<close> builds, from a decoding function and the decoder of the target
  schema, the decoder of the transformed schema (the source schema \<open>schemaFromSelf\<close>
  accepts every form data object as it is).
\<close>

type_synonym ('i, 'a, 'v) decoder = "'i \<Rightarrow> 'a ParseError + 'v"

definition schemaRecord ::
  "((FormData \<Rightarrow> FormDataRecord) \<Rightarrow> (FormDataRecord, 'a, 'v) decoder \<Rightarrow> (FormData, 'a, 'v) decoder)
   \<Rightarrow> (FormDataRecord, 'a, 'v) decoder \<Rightarrow> (FormData, 'a, 'v) decoder" where
  "schemaRecord Schema_transform target = Schema_transform toRecord target"

definition decodeFormModel ::
  "('s object \<Rightarrow> (FormDataRecord, 'a, 'v) decoder)
   \<Rightarrow> ((FormData \<Rightarrow> FormDataRecord) \<Rightarrow> (FormDataRecord, 'a, 'v) decoder \<Rightarrow> (FormData, 'a, 'v) decoder)
   \<Rightarrow> ('a ParseIssue \<Rightarrow> ArrayFormatterIssue list)
   \<Rightarrow> 's FormModelSchema \<Rightarrow> FormData \<Rightarrow> 'a FormModelFormatterResult + 'v" where
  "decodeFormModel Schema_Struct Schema_transform ArrayFormatter_formatIssue formModelSchema formData =
     (let structFields = Record_map (fields formModelSchema) schema;
          fieldsSchema = Schema_Struct structFields;
          formDataSchema = schemaRecord Schema_transform fieldsSchema
      in (case formDataSchema formData of
            Inl error \<Rightarrow> Inl (formatError ArrayFormatter_formatIssue error)
          | Inr decoded \<Rightarrow> Inr decoded))"

section \<open>Notions used in the statements\<close>

text \<open>
  \<open>enumeration_order ks\<close>: the key list \<open>ks\<close> respects the enumeration order of object
  keys, that is, no key stands behind a key that it has to precede.
\<close>

definition enumeration_order :: "string list \<Rightarrow> bool" where
  "enumeration_order ks = sorted_wrt (\<lambda>k k'. \<not> key_before k' k) ks"

text \<open>\<open>first_seen xs\<close>: the distinct elements of \<open>xs\<close> in the order of their first occurrence.\<close>

fun first_seen :: "'a list \<Rightarrow> 'a list" where
  "first_seen [] = []"
| "first_seen (x # xs) = x # first_seen (filter (\<lambda>y. y \<noteq> x) xs)"

text \<open>The record value that \<open>toRecord\<close> stores for the values \<open>vs\<close> of one group.\<close>

definition collapse :: "'a list \<Rightarrow> 'a FormDataCoercibleValue" where
  "collapse vs = (if length vs = 1 then Scalar (vs ! 0) else Array vs)"

text \<open>
  The entry values that one record value contributes to the form data: nothing for
  \<^verbatim>\<open>null\<close> and \<^verbatim>\<open>undefined\<close>, the coerced value otherwise; for an array, the coerced
  non-null elements in order.
\<close>

definition appended_values ::
  "('o \<Rightarrow> string) \<Rightarrow> 'o js_value FormDataCoercibleValue \<Rightarrow> FormDataEntryValue list" where
  "appended_values String v =
     (case v of
        Scalar x \<Rightarrow> if nullish x then [] else [coerce String x]
      | Array items \<Rightarrow> map (coerce String) (filter (\<lambda>item. \<not> nullish item) items))"

text \<open>
  \<open>node_paths tree pre\<close>: for every node of the issue tree, in the order of the
  traversal, the path at which the node sits when the root sits at \<open>pre\<close>: a pointer sits
  at the path extended by its own segments, and hands that path to its child; every other
  node hands its own path on unchanged.
\<close>

primrec node_paths :: "'a ParseIssue \<Rightarrow> PropertyKey list \<Rightarrow> PropertyKey list list" where
  "node_paths (Pointer p a child) =
     (\<lambda>path. (path @ as_array p) # node_paths child (path @ as_array p))"
| "node_paths (Composite a children) =
     (\<lambda>path. path # concat (map (\<lambda>f. f path) (as_array (map_SingleOrNonEmpty node_paths children))))"
| "node_paths (Refinement a child) = (\<lambda>path. path # node_paths child path)"
| "node_paths (Transformation a child) = (\<lambda>path. path # node_paths child path)"
| "node_paths (Type a) = (\<lambda>path. [path])"
| "node_paths (Missing a) = (\<lambda>path. [path])"
| "node_paths (Unexpected a) = (\<lambda>path. [path])"
| "node_paths (Forbidden a) = (\<lambda>path. [path])"


section \<open>Objects: keys, lookup and order after an assignment\<close>

lemma key_before_trans_aux:
  "key_before k k' \<Longrightarrow> \<not> key_before s k' \<Longrightarrow> \<not> key_before s k"
  by (auto simp: key_before_def split: option.splits)

lemma key_before_asym: "key_before k k' \<Longrightarrow> \<not> key_before k' k"
  by (auto simp: key_before_def split: option.splits)

lemma set_insert_key: "set (insert_key k v ps) = insert (k, v) (set ps)"
  by (induction ps) (auto split: if_splits)

lemma set_keys_insert_key: "fst ` set (insert_key k v ps) = insert k (fst ` set ps)"
  by (simp add: set_insert_key)

lemma distinct_insert_key:
  "k \<notin> fst ` set ps \<Longrightarrow> distinct (map fst ps) \<Longrightarrow> distinct (map fst (insert_key k v ps))"
  by (induction ps) (auto simp: set_keys_insert_key)

lemma map_of_insert_key:
  "k \<notin> fst ` set ps \<Longrightarrow> map_of (insert_key k v ps) = (map_of ps)(k \<mapsto> v)"
  by (induction ps) (auto simp: fun_upd_twist)

lemma insert_key_last:
  "\<forall>k' \<in> fst ` set ps. \<not> key_before k k' \<Longrightarrow> insert_key k v ps = ps @ [(k, v)]"
  by (induction ps) auto

lemma enumeration_order_insert_key:
  "enumeration_order (map fst ps) \<Longrightarrow> enumeration_order (map fst (insert_key k v ps))"
proof (induction ps)
  case Nil
  then show ?case by (simp add: enumeration_order_def)
next
  case (Cons p ps)
  obtain k' v' where p: "p = (k', v')" by (cases p)
  show ?case
  proof (cases "key_before k k'")
    case True
    with Cons.prems p show ?thesis
      by (auto simp: enumeration_order_def key_before_asym dest: key_before_trans_aux)
  next
    case False
    with Cons p show ?thesis
      by (auto simp: enumeration_order_def set_keys_insert_key)
  qed
qed

lemma named_insert_key:
  "filter (\<lambda>k. array_index k = None) (map fst (insert_key k v ps)) =
   filter (\<lambda>k. array_index k = None) (map fst ps) @ (if array_index k = None then [k] else [])"
  by (induction ps) (auto simp: key_before_def split: option.splits)

lemma update_keys: "map fst (map (\<lambda>(k', v'). if k' = k then (k', v) else (k', v')) ps) = map fst ps"
  by (induction ps) (simp_all add: case_prod_beta)

lemma map_of_update:
  "map_of (map (\<lambda>(k', v'). if k' = k then (k', v) else (k', v')) ps) x =
   (if x = k \<and> k \<in> fst ` set ps then Some v else map_of ps x)"
proof (induction ps)
  case Nil
  then show ?case by simp
next
  case (Cons p ps)
  obtain k' v' where p: "p = (k', v')" by (cases p)
  from Cons p show ?case by (cases "k' = k") (force simp: image_iff)+
qed

lemma obj_set_proto: "\<not> has_own obj ''__proto__'' \<Longrightarrow> obj_set obj ''__proto__'' v = obj"
  by (simp add: obj_set_def)

lemma map_of_obj_set:
  "k \<noteq> ''__proto__'' \<Longrightarrow> map_of (obj_set obj k v) = (map_of obj)(k \<mapsto> v)"
  by (rule ext) (simp add: obj_set_def has_own_def map_of_update map_of_insert_key)

lemma map_of_obj_set_other: "x \<noteq> k \<Longrightarrow> map_of (obj_set obj k v) x = map_of obj x"
  by (simp add: obj_set_def has_own_def map_of_update map_of_insert_key)

lemma keys_obj_set_own: "has_own obj k \<Longrightarrow> map fst (obj_set obj k v) = map fst obj"
  by (simp only: obj_set_def if_True update_keys)

lemma set_keys_obj_set:
  "k \<noteq> ''__proto__'' \<Longrightarrow> fst ` set (obj_set obj k v) = insert k (fst ` set obj)"
proof (cases "has_own obj k")
  case True
  then have "set (map fst (obj_set obj k v)) = set (map fst obj)"
    by (simp only: keys_obj_set_own)
  with True show ?thesis by (auto simp: has_own_def)
next
  case False
  assume "k \<noteq> ''__proto__''"
  with False show ?thesis by (simp add: obj_set_def set_keys_insert_key)
qed

lemma no_proto_obj_set:
  "''__proto__'' \<notin> fst ` set obj \<Longrightarrow> ''__proto__'' \<notin> fst ` set (obj_set obj k v)"
proof (cases "k = ''__proto__''")
  case True
  assume "''__proto__'' \<notin> fst ` set obj"
  with True show ?thesis by (simp add: obj_set_def has_own_def)
next
  case False
  assume "''__proto__'' \<notin> fst ` set obj"
  with False show ?thesis by (simp add: set_keys_obj_set)
qed

lemma distinct_obj_set: "distinct (map fst obj) \<Longrightarrow> distinct (map fst (obj_set obj k v))"
proof (cases "has_own obj k")
  case True
  assume "distinct (map fst obj)"
  with True show ?thesis by (simp add: keys_obj_set_own)
next
  case False
  assume "distinct (map fst obj)"
  with False show ?thesis by (simp add: obj_set_def has_own_def distinct_insert_key)
qed

lemma enumeration_order_obj_set:
  "enumeration_order (map fst obj) \<Longrightarrow> enumeration_order (map fst (obj_set obj k v))"
proof (cases "has_own obj k")
  case True
  assume "enumeration_order (map fst obj)"
  with True show ?thesis by (simp add: keys_obj_set_own)
next
  case False
  assume "enumeration_order (map fst obj)"
  with False show ?thesis by (simp add: obj_set_def enumeration_order_insert_key)
qed

lemma named_obj_set:
  "k \<noteq> ''__proto__'' \<Longrightarrow>
   filter (\<lambda>k. array_index k = None) (map fst (obj_set obj k v)) =
   filter (\<lambda>k. array_index k = None) (map fst obj) @
     (if array_index k = None \<and> \<not> has_own obj k then [k] else [])"
  by (cases "has_own obj k") (simp_all add: keys_obj_set_own, simp add: obj_set_def named_insert_key)

lemma obj_set_last:
  "k \<noteq> ''__proto__'' \<Longrightarrow> \<not> has_own obj k \<Longrightarrow> \<forall>k' \<in> fst ` set obj. \<not> key_before k k' \<Longrightarrow>
   obj_set obj k v = obj @ [(k, v)]"
  by (simp add: obj_set_def insert_key_last)

section \<open>Grouping\<close>

lemma set_first_seen: "set (first_seen xs) = set xs"
  by (induction xs rule: first_seen.induct) auto

lemma first_seen_snoc:
  "first_seen (xs @ [x]) = (if x \<in> set xs then first_seen xs else first_seen xs @ [x])"
proof (induction xs rule: first_seen.induct)
  case 1
  then show ?case by simp
next
  case (2 y ys)
  then show ?case by (cases "x = y") auto
qed

lemma distinct_first_seen: "distinct (first_seen xs)"
  by (induction xs rule: first_seen.induct) (auto simp: set_first_seen)

lemma groupBy_Nil: "groupBy [] f = []"
  by (simp add: groupBy_def)

lemma groupBy_snoc:
  "groupBy (xs @ [a]) f =
     (case obj_get (groupBy xs f) (f a) of
        Some g \<Rightarrow> obj_set (groupBy xs f) (f a) (g @ [a])
      | None \<Rightarrow> obj_set (groupBy xs f) (f a) [a])"
  by (simp only: groupBy_def foldl_append foldl.simps Let_def)

lemma no_proto_groupBy: "''__proto__'' \<notin> fst ` set (groupBy xs f)"
proof (induction xs rule: rev_induct)
  case Nil
  then show ?case by (simp add: groupBy_Nil)
next
  case (snoc a xs)
  then show ?case
    by (cases "obj_get (groupBy xs f) (f a)") (simp_all add: groupBy_snoc no_proto_obj_set)
qed

lemma groupBy_snoc_proto: "f a = ''__proto__'' \<Longrightarrow> groupBy (xs @ [a]) f = groupBy xs f"
proof -
  assume fa: "f a = ''__proto__''"
  have own: "\<not> has_own (groupBy xs f) ''__proto__''"
    using no_proto_groupBy[of xs f] by (simp add: has_own_def)
  then have "obj_get (groupBy xs f) ''__proto__'' = None"
    by (simp add: obj_get_def has_own_def map_of_eq_None_iff)
  with own show ?thesis by (simp add: groupBy_snoc fa obj_set_proto)
qed

lemma map_of_groupBy:
  "k \<noteq> ''__proto__'' \<Longrightarrow>
   map_of (groupBy xs f) k =
     (if filter (\<lambda>a. f a = k) xs = [] then None else Some (filter (\<lambda>a. f a = k) xs))"
proof (induction xs rule: rev_induct)
  case Nil
  then show ?case by (simp add: groupBy_Nil)
next
  case (snoc a xs)
  show ?case
  proof (cases "f a = k")
    case True
    with snoc show ?thesis
      by (cases "filter (\<lambda>b. f b = k) xs = []")
         (simp_all add: groupBy_snoc obj_get_def map_of_obj_set)
  next
    case False
    with snoc show ?thesis
      by (cases "obj_get (groupBy xs f) (f a)")
         (simp_all add: groupBy_snoc map_of_obj_set_other)
  qed
qed

lemma keys_groupBy: "fst ` set (groupBy xs f) = f ` set xs - {''__proto__''}"
proof (induction xs rule: rev_induct)
  case Nil
  then show ?case by (simp add: groupBy_Nil)
next
  case (snoc a xs)
  show ?case
  proof (cases "f a = ''__proto__''")
    case True
    with snoc show ?thesis by (auto simp: groupBy_snoc_proto)
  next
    case False
    with snoc show ?thesis
      by (cases "obj_get (groupBy xs f) (f a)") (auto simp: groupBy_snoc set_keys_obj_set)
  qed
qed

lemma has_own_groupBy: "has_own (groupBy xs f) k = (k \<in> f ` set xs \<and> k \<noteq> ''__proto__'')"
  by (auto simp: has_own_def keys_groupBy)

lemma distinct_groupBy: "distinct (map fst (groupBy xs f))"
  by (induction xs rule: rev_induct)
     (auto simp: groupBy_Nil groupBy_snoc distinct_obj_set split: option.splits)

lemma enumeration_order_groupBy: "enumeration_order (map fst (groupBy xs f))"
proof (induction xs rule: rev_induct)
  case Nil
  then show ?case by (simp add: groupBy_Nil enumeration_order_def)
next
  case (snoc a xs)
  then show ?case
    by (auto simp: groupBy_snoc enumeration_order_obj_set split: option.splits)
qed

lemma named_groupBy:
  "filter (\<lambda>k. array_index k = None) (map fst (groupBy xs f)) =
   first_seen (filter (\<lambda>k. array_index k = None \<and> k \<noteq> ''__proto__'') (map f xs))"
proof (induction xs rule: rev_induct)
  case Nil
  then show ?case by (simp add: groupBy_Nil)
next
  case (snoc a xs)
  show ?case
  proof (cases "f a = ''__proto__''")
    case True
    with snoc show ?thesis by (simp add: groupBy_snoc_proto)
  next
    case False
    with snoc show ?thesis
      by (cases "obj_get (groupBy xs f) (f a)")
         (auto simp: groupBy_snoc named_obj_set has_own_groupBy first_seen_snoc)
  qed
qed

lemma fromIterableWith_map:
  assumes "distinct (map fst obj)" and "enumeration_order (map fst obj)"
    and "''__proto__'' \<notin> fst ` set obj"
  shows "fromIterableWith obj (\<lambda>(k, x). (k, g k x)) = map (\<lambda>(k, x). (k, g k x)) obj"
  using assms
proof (induction obj rule: rev_induct)
  case Nil
  then show ?case by (simp add: fromIterableWith_def)
next
  case (snoc p obj)
  obtain k x where p: "p = (k, x)" by (cases p)
  from snoc.prems have d: "distinct (map fst obj)" and e: "enumeration_order (map fst obj)"
    and fresh: "k \<notin> fst ` set obj" and last: "\<forall>k' \<in> fst ` set obj. \<not> key_before k k'"
    and np: "''__proto__'' \<notin> fst ` set obj" and kp: "k \<noteq> ''__proto__''"
    by (auto simp: p enumeration_order_def sorted_wrt_append)
  let ?h = "\<lambda>(k, x). (k, g k x)"
  have keys: "fst ` set (map ?h obj) = fst ` set obj"
    by force
  have "fromIterableWith (obj @ [p]) ?h = obj_set (fromIterableWith obj ?h) k (g k x)"
    by (simp add: fromIterableWith_def p)
  also have "\<dots> = obj_set (map ?h obj) k (g k x)"
    using snoc.IH[OF d e np] by simp
  also have "\<dots> = map ?h obj @ [(k, g k x)]"
    by (rule obj_set_last) (use fresh last keys kp in \<open>force simp: has_own_def\<close>)+
  finally show ?case by (simp add: p)
qed

section \<open>The codec, characterised\<close>

lemma toRecord_eq:
  "toRecord fd = map (\<lambda>(k, es). (k, collapse (map snd es))) (groupBy fd fst)"
proof -
  have "toRecord fd = fromIterableWith (groupBy fd fst) (\<lambda>(k, es). (k, collapse (map snd es)))"
    by (simp add: toRecord_def Object_entries_def entries_def Let_def collapse_def)
  also have "\<dots> = map (\<lambda>(k, es). (k, collapse (map snd es))) (groupBy fd fst)"
    by (rule fromIterableWith_map)
       (rule distinct_groupBy, rule enumeration_order_groupBy, rule no_proto_groupBy)
  finally show ?thesis .
qed

lemma keys_toRecord: "map fst (toRecord fd) = map fst (groupBy fd fst)"
  by (simp add: toRecord_eq case_prod_beta)

lemma map_of_toRecord:
  "k \<noteq> ''__proto__'' \<Longrightarrow>
   map_of (toRecord fd) k =
     (if getAll fd k = [] then None else Some (collapse (getAll fd k)))"
  by (simp add: toRecord_eq map_of_map map_of_groupBy getAll_def)


lemma groupBy_nonempty: "(k, es) \<in> set (groupBy xs f) \<Longrightarrow> es \<noteq> []"
proof -
  assume mem: "(k, es) \<in> set (groupBy xs f)"
  then have look: "map_of (groupBy xs f) k = Some es"
    using distinct_groupBy[of xs f] by simp
  from mem have "k \<in> fst ` set (groupBy xs f)" by force
  with no_proto_groupBy[of xs f] have "k \<noteq> ''__proto__''" by blast
  with look show ?thesis by (auto simp: map_of_groupBy split: if_splits)
qed

lemma toRecord_no_empty: "(k, v) \<in> set (toRecord fd) \<Longrightarrow> v \<noteq> Array [] \<and> (\<forall>x. v \<noteq> Array [x])"
  by (auto simp: toRecord_eq collapse_def dest: groupBy_nonempty split: if_splits)

lemma inner_forEach:
  "foldl (\<lambda>acc item. if nullish item then acc else append_entry acc key (coerce String item)) acc items =
   acc @ map (Pair key) (map (coerce String) (filter (\<lambda>item. \<not> nullish item) items))"
  by (induction items arbitrary: acc) (simp_all add: append_entry_def)

lemma reduce_step:
  "(case v of
      Array items \<Rightarrow>
        foldl (\<lambda>acc item. if nullish item then acc else append_entry acc key (coerce String item)) acc items
    | Scalar x \<Rightarrow> if \<not> nullish x then append_entry acc key (coerce String x) else acc) =
   acc @ map (Pair key) (appended_values String v)"
  by (cases v) (simp_all add: inner_forEach appended_values_def append_entry_def)

lemma fromFormDataRecord_foldl:
  "foldl (\<lambda>out (key, v). out @ map (Pair key) (appended_values String v)) acc input =
   acc @ concat (map (\<lambda>(key, v). map (Pair key) (appended_values String v)) input)"
  by (induction input arbitrary: acc) (simp_all add: case_prod_beta)

lemma fromFormDataRecord_eq:
  "fromFormDataRecord String input =
   concat (map (\<lambda>(key, v). map (Pair key) (appended_values String v)) input)"
  using fromFormDataRecord_foldl[of String "[]" input]
  by (simp add: fromFormDataRecord_def Record_reduce_def reduce_step)

lemma getAll_concat:
  "distinct (map fst r) \<Longrightarrow>
   getAll (concat (map (\<lambda>(key, v). map (Pair key) (g v)) r)) k =
     (case map_of r k of None \<Rightarrow> [] | Some v \<Rightarrow> g v)"
proof (induction r)
  case Nil
  then show ?case by (simp add: getAll_def)
next
  case (Cons p r)
  obtain k' v' where p: "p = (k', v')" by (cases p)
  have other: "k' \<noteq> k \<Longrightarrow> filter (\<lambda>e. fst e = k) (map (Pair k') (g v')) = []"
    by (induction "g v'") (auto simp: filter_empty_conv)
  have same: "filter (\<lambda>e. fst e = k') (map (Pair k') (g v')) = map (Pair k') (g v')"
    by (simp add: filter_id_conv)
  from Cons.prems p have "map_of r k' = None"
    by (simp add: map_of_eq_None_iff)
  with Cons p show ?case
    using other same by (cases "k' = k") (auto simp: getAll_def comp_def)
qed












lemma map_of_typed: "map_of (typed r) key = map_option (map_FormDataCoercibleValue Entry) (map_of r key)"
  by (simp add: typed_def map_of_map)


lemma appended_values_typed_Array:
  "appended_values String (Array (map Entry xs)) = xs"
proof -
  have "map (coerce String) (filter (\<lambda>item. \<not> nullish item) (map Entry xs)) = xs"
  proof (induction xs)
    case Nil
    then show ?case by simp
  next
    case (Cons x xs)
    then show ?case by (cases x) simp_all
  qed
  then show ?thesis by (simp add: appended_values_def)
qed


section \<open>The collector and the formatter, characterised\<close>


lemma as_array_map: "as_array (map_SingleOrNonEmpty f s) = map f (as_array s)"
  by (cases s) simp_all

lemma collect_keys:
  "map fst (collectActualValues tree pre) = map (\<lambda>p. join p ''.'') (node_paths tree pre)"
proof (induction tree pre rule: collectActualValues.induct)
  case (2 a issues path)
  have "map fst (concat (map (\<lambda>c. collectActualValues c path) (as_array issues))) =
        map (\<lambda>p. join p ''.'') (concat (map (\<lambda>c. node_paths c path) (as_array issues)))"
    using 2 by (simp add: map_concat comp_def cong: map_cong)
  then show ?case by (simp add: as_array_map comp_def)
qed (simp_all add: Let_def)

lemma join_Nil: "join [] sep = []"
  by (simp add: join_def)

lemma join_strings_snoc:
  "join_strings (xs @ [x]) sep = (if xs = [] then x else join_strings xs sep @ sep @ x)"
  by (induction xs sep rule: join_strings.induct) simp_all

lemma join_snoc:
  "join (pre @ [seg]) sep = (if pre = [] then ToString seg else join pre sep @ sep @ ToString seg)"
  by (simp add: join_def join_strings_snoc)




lemma fromIterableWith_snoc:
  "fromIterableWith (xs @ [a]) f = obj_set (fromIterableWith xs f) (fst (f a)) (snd (f a))"
  by (simp add: fromIterableWith_def)

lemma map_of_fromIterableWith:
  "k \<noteq> ''__proto__'' \<Longrightarrow>
   map_of (fromIterableWith xs f) k =
     (if filter (\<lambda>a. fst (f a) = k) xs = [] then None
      else Some (snd (f (last (filter (\<lambda>a. fst (f a) = k) xs)))))"
proof (induction xs rule: rev_induct)
  case Nil
  then show ?case by (simp add: fromIterableWith_def)
next
  case (snoc a xs)
  show ?case
  proof (cases "fst (f a) = k")
    case True
    with snoc.prems show ?thesis by (simp add: fromIterableWith_snoc map_of_obj_set)
  next
    case False
    with snoc show ?thesis by (simp add: fromIterableWith_snoc map_of_obj_set_other)
  qed
qed

lemma no_proto_fromIterableWith: "''__proto__'' \<notin> fst ` set (fromIterableWith xs f)"
  by (induction xs rule: rev_induct)
     (simp_all add: fromIterableWith_snoc no_proto_obj_set, simp add: fromIterableWith_def)

lemma keys_fromIterableWith:
  "fst ` set (fromIterableWith xs f) = (\<lambda>a. fst (f a)) ` set xs - {''__proto__''}"
proof (induction xs rule: rev_induct)
  case Nil
  then show ?case by (simp add: fromIterableWith_def)
next
  case (snoc a xs)
  show ?case
  proof (cases "fst (f a) = ''__proto__''")
    case True
    have "\<not> has_own (fromIterableWith xs f) ''__proto__''"
      using no_proto_fromIterableWith[of xs f] by (simp add: has_own_def)
    with True snoc show ?thesis by (auto simp: fromIterableWith_snoc obj_set_proto)
  next
    case False
    with snoc show ?thesis by (auto simp: fromIterableWith_snoc set_keys_obj_set)
  qed
qed

lemma distinct_fromIterableWith: "distinct (map fst (fromIterableWith xs f))"
  by (induction xs rule: rev_induct)
     (simp_all add: fromIterableWith_snoc distinct_obj_set, simp add: fromIterableWith_def)

lemma formatIssue_eq:
  "formatIssue AF tree =
     fromIterableWith (AF tree)
       (\<lambda>e. (join (path e) ''.'',
              \<lparr>actual = Map_get (Map_new (collectActualValues tree [])) (join (path e) ''.''),
               message = Some (ArrayFormatterIssue.message e)\<rparr>))"
  by (simp add: formatIssue_def fromIterableWith_def Let_def)

section \<open>The record codec: claims\<close>

subsection \<open>C1: round trip\<close>




subsection \<open>C2: grouping\<close>

text \<open>
  C2 (as stated) says that \<open>toRecord\<close> keeps the keys in first-seen order. For the
  submission \<^verbatim>\<open>b=x, 1=y\<close> the first-seen order is \<^verbatim>\<open>b, 1\<close>, and the record enumerates
  its keys as \<^verbatim>\<open>1, b\<close>: the key \<^verbatim>\<open>1\<close> is an array index.
\<close>

theorem toRecord_key_order_counterexample:
  "Object_keys (toRecord [(''b'', FString ''x''), (''1'', FString ''y'')]) = [''1'', ''b'']
   \<and> first_seen (map fst [(''b'', FString ''x''), (''1'', FString ''y'')]) = [''b'', ''1'']
   \<and> Object_keys (toRecord [(''b'', FString ''x''), (''1'', FString ''y'')])
       \<noteq> first_seen (map fst [(''b'', FString ''x''), (''1'', FString ''y'')])"
proof -
  have b: "array_index ''b'' = None" by (simp add: array_index_def digit_def)
  have one: "array_index ''1'' = Some 1"
    by (simp add: array_index_def digit_def numeral_val_def digit_val_def)
  show ?thesis
    by (simp add: Object_keys_def toRecord_eq groupBy_def Let_def obj_get_def obj_set_def
        has_own_def key_before_def b one)
qed

text \<open>
  C2 (amended): for every submission and every key other than \<^verbatim>\<open>__proto__\<close>, \<open>toRecord\<close>
  maps a key with exactly one entry to the bare value, a key with two or more entries to
  the list of its values in append order, and a key without entries to nothing; no key
  maps to an empty list; apart from \<^verbatim>\<open>__proto__\<close> the keys of the record are exactly the
  keys of the submission, each once. The keys stand in enumeration order; the keys that
  are neither array indices nor \<^verbatim>\<open>__proto__\<close> keep their first-seen order, and where no
  key of the submission is an array index or \<^verbatim>\<open>__proto__\<close> the key order is the
  first-seen order.
\<close>

theorem toRecord_grouping:
  "(key \<noteq> ''__proto__'' \<longrightarrow>
      obj_get (toRecord formData) key =
        (case getAll formData key of
           [] \<Rightarrow> None
         | [v] \<Rightarrow> Some (Scalar v)
         | v # w # ws \<Rightarrow> Some (Array (v # w # ws))))
   \<and> Array [] \<notin> snd ` set (toRecord formData)
   \<and> distinct (Object_keys (toRecord formData))
   \<and> set (Object_keys (toRecord formData)) - {''__proto__''}
       = set (map fst formData) - {''__proto__''}
   \<and> enumeration_order (Object_keys (toRecord formData))
   \<and> filter (\<lambda>k. array_index k = None \<and> k \<noteq> ''__proto__'') (Object_keys (toRecord formData))
       = first_seen (filter (\<lambda>k. array_index k = None \<and> k \<noteq> ''__proto__'') (map fst formData))
   \<and> (list_all (\<lambda>k. array_index k = None \<and> k \<noteq> ''__proto__'') (map fst formData)
        \<longrightarrow> Object_keys (toRecord formData) = first_seen (map fst formData))"
proof -
  have lookup: "obj_get (toRecord formData) key =
     (case getAll formData key of
        [] \<Rightarrow> None
      | [v] \<Rightarrow> Some (Scalar v)
      | v # w # ws \<Rightarrow> Some (Array (v # w # ws)))" if "key \<noteq> ''__proto__''"
    using that by (simp add: obj_get_def map_of_toRecord collapse_def split: list.splits)
  have no_empty: "Array [] \<notin> snd ` set (toRecord formData)"
    using toRecord_no_empty[of _ _ formData] by force
  have keys: "Object_keys (toRecord formData) = map fst (groupBy formData fst)"
    by (simp add: Object_keys_def keys_toRecord)
  have d: "distinct (Object_keys (toRecord formData))"
    by (simp add: keys distinct_groupBy)
  have s: "set (Object_keys (toRecord formData)) = set (map fst formData) - {''__proto__''}"
    using keys_groupBy[of formData fst] by (simp add: keys)
  have e: "enumeration_order (Object_keys (toRecord formData))"
    by (simp add: keys enumeration_order_groupBy)
  have np: "\<forall>k \<in> set (Object_keys (toRecord formData)). k \<noteq> ''__proto__''"
    using s by auto
  have n0: "filter (\<lambda>k. array_index k = None) (Object_keys (toRecord formData))
       = first_seen (filter (\<lambda>k. array_index k = None \<and> k \<noteq> ''__proto__'') (map fst formData))"
    by (simp only: keys named_groupBy)
  have "filter (\<lambda>k. array_index k = None \<and> k \<noteq> ''__proto__'') (Object_keys (toRecord formData))
       = filter (\<lambda>k. array_index k = None) (Object_keys (toRecord formData))"
    by (rule filter_cong) (use np in auto)
  with n0 have n: "filter (\<lambda>k. array_index k = None \<and> k \<noteq> ''__proto__'') (Object_keys (toRecord formData))
       = first_seen (filter (\<lambda>k. array_index k = None \<and> k \<noteq> ''__proto__'') (map fst formData))"
    by simp
  have a: "Object_keys (toRecord formData) = first_seen (map fst formData)"
    if "list_all (\<lambda>k. array_index k = None \<and> k \<noteq> ''__proto__'') (map fst formData)"
  proof -
    from that have all: "\<forall>k \<in> set (map fst formData). array_index k = None \<and> k \<noteq> ''__proto__''"
      by (simp add: list_all_iff)
    then have "filter (\<lambda>k. array_index k = None \<and> k \<noteq> ''__proto__'') (map fst formData) = map fst formData"
      by (simp only: filter_id_conv)
    moreover from all s
    have "\<forall>k \<in> set (Object_keys (toRecord formData)). array_index k = None \<and> k \<noteq> ''__proto__''"
      by auto
    then have "filter (\<lambda>k. array_index k = None \<and> k \<noteq> ''__proto__'') (Object_keys (toRecord formData))
        = Object_keys (toRecord formData)"
      by (simp only: filter_id_conv)
    ultimately show ?thesis using n by simp
  qed
  from s have s': "set (Object_keys (toRecord formData)) - {''__proto__''}
       = set (map fst formData) - {''__proto__''}"
    by auto
  from lookup no_empty d s' e n a show ?thesis by blast
qed

text \<open>C2, witness: two entries under \<^verbatim>\<open>pets\<close> around one entry under \<^verbatim>\<open>name\<close>.\<close>

theorem toRecord_grouping_witness:
  "Object_keys (toRecord [(''pets'', FString ''Fido''), (''name'', FString ''John''), (''pets'', FString ''Rex'')])
     = [''pets'', ''name'']
   \<and> obj_get (toRecord [(''pets'', FString ''Fido''), (''name'', FString ''John''), (''pets'', FString ''Rex'')]) ''pets''
     = Some (Array [FString ''Fido'', FString ''Rex''])
   \<and> obj_get (toRecord [(''pets'', FString ''Fido''), (''name'', FString ''John''), (''pets'', FString ''Rex'')]) ''name''
     = Some (Scalar (FString ''John''))"
proof -
  let ?fd = "[(''pets'', FString ''Fido''), (''name'', FString ''John''), (''pets'', FString ''Rex'')]"
  have named: "list_all (\<lambda>k. array_index k = None \<and> k \<noteq> ''__proto__'') (map fst ?fd)"
    by (simp add: array_index_def digit_def)
  have pets: "''pets'' \<noteq> ''__proto__''" and name: "''name'' \<noteq> ''__proto__''"
    by simp_all
  from toRecord_grouping[of "''pets''" ?fd] named pets
  have "Object_keys (toRecord ?fd) = first_seen (map fst ?fd)"
    and "obj_get (toRecord ?fd) ''pets'' = Some (Array [FString ''Fido'', FString ''Rex''])"
    by (simp_all add: getAll_def)
  moreover from toRecord_grouping[of "''name''" ?fd] name
  have "obj_get (toRecord ?fd) ''name'' = Some (Scalar (FString ''John''))"
    by (simp add: getAll_def)
  ultimately show ?thesis by simp
qed

subsection \<open>C3: from record to form data\<close>

text \<open>
  C3: \<open>fromFormDataRecord\<close> appends, key after key in the order of the record, the
  entries of each value: for a scalar one entry (a file as it is, any other value as its
  string), for \<^verbatim>\<open>null\<close> and \<^verbatim>\<open>undefined\<close> nothing, for a list one entry per non-null
  element in list order. Hence the entries under a key are those of the value stored
  under it, and a key absent from the record has no entries.
\<close>

theorem fromFormDataRecord_entries:
  "fromFormDataRecord String input =
     concat (map (\<lambda>(key, v). map (Pair key) (appended_values String v)) input)
   \<and> (distinct (Object_keys input) \<longrightarrow>
        getAll (fromFormDataRecord String input) key =
          (case obj_get input key of
             None \<Rightarrow> []
           | Some (Scalar x) \<Rightarrow> if nullish x then [] else [coerce String x]
           | Some (Array items) \<Rightarrow> map (coerce String) (filter (\<lambda>item. \<not> nullish item) items)))
   \<and> coerce String (Entry (FFile f)) = FFile f
   \<and> coerce String (Entry (FString s)) = FString s
   \<and> coerce String (Other x) = FString (String x)"
proof -
  have whole: "fromFormDataRecord String input =
     concat (map (\<lambda>(key, v). map (Pair key) (appended_values String v)) input)"
    by (rule fromFormDataRecord_eq)
  have per_key: "getAll (fromFormDataRecord String input) key =
          (case obj_get input key of
             None \<Rightarrow> []
           | Some (Scalar x) \<Rightarrow> if nullish x then [] else [coerce String x]
           | Some (Array items) \<Rightarrow> map (coerce String) (filter (\<lambda>item. \<not> nullish item) items))"
    if "distinct (Object_keys input)"
    using getAll_concat[of input "appended_values String" key] that
    by (simp add: whole Object_keys_def obj_get_def appended_values_def
        split: option.splits FormDataCoercibleValue.splits)
  from whole per_key show ?thesis by simp
qed

text \<open>C3, witness: a list with a null and a boolean, an undefined scalar, a file, an absent key.\<close>

theorem fromFormDataRecord_entries_witness:
  "getAll (fromFormDataRecord (\<lambda>b. if b then ''true'' else ''false'')
      [(''a'', Array [Null, Other True, Entry (FString ''q'')]),
       (''b'', Scalar Undefined),
       (''c'', Scalar (Entry (FFile (FileHandle 3))))]) ''a'' = [FString ''true'', FString ''q'']
   \<and> getAll (fromFormDataRecord (\<lambda>b. if b then ''true'' else ''false'')
      [(''a'', Array [Null, Other True, Entry (FString ''q'')]),
       (''b'', Scalar Undefined),
       (''c'', Scalar (Entry (FFile (FileHandle 3))))]) ''b'' = []
   \<and> getAll (fromFormDataRecord (\<lambda>b. if b then ''true'' else ''false'')
      [(''a'', Array [Null, Other True, Entry (FString ''q'')]),
       (''b'', Scalar Undefined),
       (''c'', Scalar (Entry (FFile (FileHandle 3))))]) ''c'' = [FFile (FileHandle 3)]
   \<and> getAll (fromFormDataRecord (\<lambda>b. if b then ''true'' else ''false'')
      [(''a'', Array [Null, Other True, Entry (FString ''q'')]),
       (''b'', Scalar Undefined),
       (''c'', Scalar (Entry (FFile (FileHandle 3))))]) ''d'' = []"
proof -
  let ?S = "\<lambda>b. if b then ''true'' else ''false''"
  let ?r = "[(''a'', Array [Null, Other True, Entry (FString ''q'')]),
       (''b'', Scalar Undefined),
       (''c'', Scalar (Entry (FFile (FileHandle 3))))]"
  have d: "distinct (Object_keys ?r)" by (simp add: Object_keys_def)
  from fromFormDataRecord_entries[of ?S ?r "''a''", THEN conjunct2, THEN conjunct1, rule_format, OF d]
  have a: "getAll (fromFormDataRecord ?S ?r) ''a'' = [FString ''true'', FString ''q'']"
    by (simp add: obj_get_def)
  from fromFormDataRecord_entries[of ?S ?r "''b''", THEN conjunct2, THEN conjunct1, rule_format, OF d]
  have b: "getAll (fromFormDataRecord ?S ?r) ''b'' = []"
    by (simp add: obj_get_def)
  from fromFormDataRecord_entries[of ?S ?r "''c''", THEN conjunct2, THEN conjunct1, rule_format, OF d]
  have c: "getAll (fromFormDataRecord ?S ?r) ''c'' = [FFile (FileHandle 3)]"
    by (simp add: obj_get_def)
  from fromFormDataRecord_entries[of ?S ?r "''d''", THEN conjunct2, THEN conjunct1, rule_format, OF d]
  have e: "getAll (fromFormDataRecord ?S ?r) ''d'' = []"
    by (simp add: obj_get_def)
  from a b c e show ?thesis by simp
qed

subsection \<open>C10: one-element lists collapse\<close>




section \<open>The collector, the merger and the decoder: claims\<close>

subsection \<open>C4: the traversal\<close>

text \<open>
  C4: for every issue tree and path prefix the collector emits its entries in this order.
  A pointer extends the prefix by its own segments, emits the joined new path with its
  actual value and continues with its child at the new path. A composite emits the joined
  prefix with its actual value, followed by the entries of its children, one child after
  the other, each at the unchanged prefix. A refinement or transformation emits the joined
  prefix with its actual value, followed by the entries of its child at the unchanged
  prefix. A leaf (type, missing, unexpected, forbidden) emits exactly one entry.
\<close>

theorem collectActualValues_traversal:
  "collectActualValues (Pointer p a child) pre =
     (join (pre @ as_array p) ''.'', a) # collectActualValues child (pre @ as_array p)
   \<and> collectActualValues (Composite a children) pre =
     (join pre ''.'', a) # concat (map (\<lambda>child. collectActualValues child pre) (as_array children))
   \<and> collectActualValues (Refinement a child) pre =
     (join pre ''.'', a) # collectActualValues child pre
   \<and> collectActualValues (Transformation a child) pre =
     (join pre ''.'', a) # collectActualValues child pre
   \<and> collectActualValues (Type a) pre = [(join pre ''.'', a)]
   \<and> collectActualValues (Missing a) pre = [(join pre ''.'', a)]
   \<and> collectActualValues (Unexpected a) pre = [(join pre ''.'', a)]
   \<and> collectActualValues (Forbidden a) pre = [(join pre ''.'', a)]"
  by (simp add: Let_def)

text \<open>C4, instance: a pointer over a transformation over a composite of a leaf and a pointer.\<close>

theorem collectActualValues_traversal_witness:
  "collectActualValues
     (Pointer (Single (KString ''name'')) (Some ''a'')
        (Transformation (Some ''b'')
           (Composite None
              (NonEmpty (Type (Some ''c''))
                 [Pointer (NonEmpty (KNumber 12) [KString ''x'']) None (Missing None)])))) []
   = [(''name'', Some ''a''), (''name'', Some ''b''), (''name'', None), (''name'', Some ''c''),
      (''name.12.x'', None), (''name.12.x'', None)]"
proof -
  have twelve: "string_of_nat 12 = ''12''"
    by code_simp
  show ?thesis
    using collectActualValues_traversal[of "Single (KString ''name'')" "Some ''a''" _ "[]"]
    by (simp add: Let_def join_def twelve)
qed

subsection \<open>C5: the last write wins\<close>



subsection \<open>C6: the merged result\<close>

text \<open>
  C6 (as stated) says that the merged result maps the joined path of each formatted entry
  to that entry's message. Where two formatted entries have the same path, as for the two
  members of a failed union under the pointer \<^verbatim>\<open>a\<close>, the message of the first entry is
  not in the result: the second assignment to the key replaces it.
\<close>

theorem formatIssue_merge_counterexample:
  "formatIssue
     (\<lambda>t. [\<lparr>path = [KString ''a''], message = ''Expected string''\<rparr>,
           \<lparr>path = [KString ''a''], message = ''Expected file''\<rparr>])
     (Pointer (Single (KString ''a'')) (Some ''1'')
        (Composite (Some ''1'') (NonEmpty (Type (Some ''1'')) [Type (Some ''1'')])))
   = [(''a'', \<lparr>actual = Some ''1'', message = Some ''Expected file''\<rparr>)]
   \<and> obj_get
       (formatIssue
          (\<lambda>t. [\<lparr>path = [KString ''a''], message = ''Expected string''\<rparr>,
                \<lparr>path = [KString ''a''], message = ''Expected file''\<rparr>])
          (Pointer (Single (KString ''a'')) (Some ''1'')
             (Composite (Some ''1'') (NonEmpty (Type (Some ''1'')) [Type (Some ''1'')]))))
       (join (path \<lparr>path = [KString ''a''], message = ''Expected string''\<rparr>) ''.'')
     \<noteq> Some \<lparr>actual = Some ''1'', message = Some ''Expected string''\<rparr>"
  by (simp add: formatIssue_def Let_def join_def obj_set_def has_own_def obj_get_def
      Map_new_def Map_get_def)

text \<open>
  C6 (amended): for every issue tree and formatted message list, and apart from the key
  \<^verbatim>\<open>__proto__\<close>, the keys of the merged result are exactly the joined paths of the
  formatted entries, each once; a key other than \<^verbatim>\<open>__proto__\<close> is mapped to the
  collector's actual value for that key (\<^verbatim>\<open>undefined\<close> if there is none) together with
  the message of the last formatted entry with that key; a key that is the joined path of
  no formatted entry is not in the result, whatever the collector holds for it.
\<close>

theorem formatIssue_merge:
  "set (Object_keys (formatIssue AF tree)) - {''__proto__''}
     = (\<lambda>e. join (path e) ''.'') ` set (AF tree) - {''__proto__''}
   \<and> distinct (Object_keys (formatIssue AF tree))
   \<and> (key \<noteq> ''__proto__'' \<longrightarrow>
        obj_get (formatIssue AF tree) key =
          (if filter (\<lambda>e. join (path e) ''.'' = key) (AF tree) = [] then None
           else Some \<lparr>actual = Map_get (Map_new (collectActualValues tree [])) key,
                      message = Some (ArrayFormatterIssue.message
                                        (last (filter (\<lambda>e. join (path e) ''.'' = key) (AF tree))))\<rparr>))"
proof -
  let ?f = "\<lambda>e. (join (path e) ''.'',
              \<lparr>actual = Map_get (Map_new (collectActualValues tree [])) (join (path e) ''.''),
               message = Some (ArrayFormatterIssue.message e)\<rparr>)"
  have "set (Object_keys (formatIssue AF tree))
      = (\<lambda>e. join (path e) ''.'') ` set (AF tree) - {''__proto__''}"
    using keys_fromIterableWith[of "AF tree" ?f] by (simp add: formatIssue_eq Object_keys_def)
  then have keys: "set (Object_keys (formatIssue AF tree)) - {''__proto__''}
     = (\<lambda>e. join (path e) ''.'') ` set (AF tree) - {''__proto__''}"
    by auto
  have d: "distinct (Object_keys (formatIssue AF tree))"
    by (simp add: formatIssue_eq Object_keys_def distinct_fromIterableWith)
  have l: "obj_get (formatIssue AF tree) key =
       (if filter (\<lambda>e. join (path e) ''.'' = key) (AF tree) = [] then None
        else Some \<lparr>actual = Map_get (Map_new (collectActualValues tree [])) key,
                   message = Some (ArrayFormatterIssue.message
                                     (last (filter (\<lambda>e. join (path e) ''.'' = key) (AF tree))))\<rparr>)"
    if np: "key \<noteq> ''__proto__''"
  proof (cases "filter (\<lambda>e. join (path e) ''.'' = key) (AF tree) = []")
    case True
    then show ?thesis
      using map_of_fromIterableWith[OF np, of "AF tree" ?f] by (simp add: formatIssue_eq obj_get_def)
  next
    case False
    then have "last (filter (\<lambda>e. join (path e) ''.'' = key) (AF tree))
                 \<in> set (filter (\<lambda>e. join (path e) ''.'' = key) (AF tree))"
      by (rule last_in_set)
    then have "join (path (last (filter (\<lambda>e. join (path e) ''.'' = key) (AF tree)))) ''.'' = key"
      by simp
    with False show ?thesis
      using map_of_fromIterableWith[OF np, of "AF tree" ?f] by (simp add: formatIssue_eq obj_get_def)
  qed
  from keys d l show ?thesis by simp
qed

text \<open>
  C6, instance: a composite at the root over a pointer \<^verbatim>\<open>age\<close>, with one formatted entry
  under \<^verbatim>\<open>age\<close>. The collector holds a value for the root key; the merged result has the
  key \<^verbatim>\<open>age\<close> and no root key.
\<close>

theorem formatIssue_merge_witness:
  "obj_get
     (formatIssue
        (\<lambda>t. [\<lparr>path = [KString ''age''], message = ''Must be 18 or over''\<rparr>])
        (Composite (Some ''record'')
           (Single (Pointer (Single (KString ''age'')) (Some ''17'')
              (Refinement (Some ''17'') (Type (Some ''17'')))))))
     ''age''
   = Some \<lparr>actual = Some ''17'', message = Some ''Must be 18 or over''\<rparr>
   \<and> Map_new
       (collectActualValues
          (Composite (Some ''record'')
             (Single (Pointer (Single (KString ''age'')) (Some ''17'')
                (Refinement (Some ''17'') (Type (Some ''17'')))))) []) ''''
     = Some (Some ''record'')
   \<and> obj_get
     (formatIssue
        (\<lambda>t. [\<lparr>path = [KString ''age''], message = ''Must be 18 or over''\<rparr>])
        (Composite (Some ''record'')
           (Single (Pointer (Single (KString ''age'')) (Some ''17'')
              (Refinement (Some ''17'') (Type (Some ''17'')))))))
     '''' = None"
proof -
  let ?AF = "\<lambda>t::string ParseIssue. [\<lparr>path = [KString ''age''], message = ''Must be 18 or over''\<rparr>]"
  let ?t = "Composite (Some ''record'')
           (Single (Pointer (Single (KString ''age'')) (Some ''17'')
              (Refinement (Some ''17'') (Type (Some ''17'')))))"
  have age: "''age'' \<noteq> ''__proto__''" and root: "'''' \<noteq> ''__proto__''"
    by simp_all
  from formatIssue_merge[of ?AF ?t "''age''", THEN conjunct2, THEN conjunct2, rule_format, OF age]
  have a: "obj_get (formatIssue ?AF ?t) ''age''
     = Some \<lparr>actual = Some ''17'', message = Some ''Must be 18 or over''\<rparr>"
    by (simp add: join_def Let_def Map_new_def Map_get_def)
  have held: "Map_new (collectActualValues ?t []) '''' = Some (Some ''record'')"
    by (simp add: join_def Let_def Map_new_def)
  from formatIssue_merge[of ?AF ?t "''''", THEN conjunct2, THEN conjunct2, rule_format, OF root]
  have b: "obj_get (formatIssue ?AF ?t) '''' = None"
    by (simp add: join_def)
  from a held b show ?thesis by simp
qed

subsection \<open>C7: the two channels of the decoder\<close>

text \<open>
  C7: for every model and submission, where the validator succeeds \<open>decodeFormModel\<close>
  returns the validator's value unchanged; where the validator fails with an issue tree,
  \<open>decodeFormModel\<close> fails with the merged mapping that \<open>formatIssue\<close> builds from that
  tree. The failure channel has the type of the merged mapping, so it never holds the
  issue tree itself.
\<close>

theorem decodeFormModel_channels:
  "(Schema_transform toRecord (Schema_Struct (Record_map (fields formModelSchema) schema)) formData = Inr v
      \<longrightarrow> decodeFormModel Schema_Struct Schema_transform AF formModelSchema formData = Inr v)
   \<and> (Schema_transform toRecord (Schema_Struct (Record_map (fields formModelSchema) schema)) formData
        = Inl (ParseError tree)
      \<longrightarrow> decodeFormModel Schema_Struct Schema_transform AF formModelSchema formData
            = Inl (formatIssue AF tree))"
  by (simp add: decodeFormModel_def schemaRecord_def formatError_def Let_def)

text \<open>
  C7, instance: a model with the field \<^verbatim>\<open>age\<close>, a validator that accepts \<^verbatim>\<open>18\<close>, and
  the submissions \<^verbatim>\<open>age=18\<close> and \<^verbatim>\<open>age=17\<close>.
\<close>

theorem decodeFormModel_channels_witness:
  "decodeFormModel
     (\<lambda>structFields record.
        case obj_get record ''age'' of
          Some (Scalar (FString s)) \<Rightarrow>
            if s = ''18'' then Inr (18::nat)
            else Inl (ParseError (Pointer (Single (KString ''age'')) (Some s)
                                   (Refinement (Some s) (Type (Some s)))))
        | _ \<Rightarrow> Inl (ParseError (Pointer (Single (KString ''age'')) None (Missing None))))
     (\<lambda>decode target formData. target (decode formData))
     (\<lambda>t. [\<lparr>path = [KString ''age''], message = ''Must be 18 or over''\<rparr>])
     (FormModelSchema [(''age'', FormFieldModelSchema ())])
     [(''age'', FString ''18'')] = Inr 18
   \<and> decodeFormModel
     (\<lambda>structFields record.
        case obj_get record ''age'' of
          Some (Scalar (FString s)) \<Rightarrow>
            if s = ''18'' then Inr (18::nat)
            else Inl (ParseError (Pointer (Single (KString ''age'')) (Some s)
                                   (Refinement (Some s) (Type (Some s)))))
        | _ \<Rightarrow> Inl (ParseError (Pointer (Single (KString ''age'')) None (Missing None))))
     (\<lambda>decode target formData. target (decode formData))
     (\<lambda>t. [\<lparr>path = [KString ''age''], message = ''Must be 18 or over''\<rparr>])
     (FormModelSchema [(''age'', FormFieldModelSchema ())])
     [(''age'', FString ''17'')]
     = Inl [(''age'', \<lparr>actual = Some ''17'', message = Some ''Must be 18 or over''\<rparr>)]"
proof -
  let ?Struct = "\<lambda>(structFields :: unit object) record.
        case obj_get record ''age'' of
          Some (Scalar (FString s)) \<Rightarrow>
            if s = ''18'' then Inr (18::nat)
            else Inl (ParseError (Pointer (Single (KString ''age'')) (Some s)
                                   (Refinement (Some s) (Type (Some s)))))
        | _ \<Rightarrow> Inl (ParseError (Pointer (Single (KString ''age'')) None (Missing None)))"
  let ?transform = "\<lambda>(decode :: FormData \<Rightarrow> FormDataRecord)
     (target :: FormDataRecord \<Rightarrow> string ParseError + nat) formData. target (decode formData)"
  let ?AF = "\<lambda>t :: string ParseIssue. [\<lparr>path = [KString ''age''], message = ''Must be 18 or over''\<rparr>]"
  let ?model = "FormModelSchema [(''age'', FormFieldModelSchema ())]"
  let ?tree = "Pointer (Single (KString ''age'')) (Some ''17'')
                 (Refinement (Some ''17'') (Type (Some ''17'')))"
  have rec: "toRecord [(''age'', FString s)] = [(''age'', Scalar (FString s))]" for s
    by (simp add: toRecord_eq groupBy_def Let_def obj_get_def obj_set_def has_own_def collapse_def)
  have ok: "?transform toRecord (?Struct (Record_map (fields ?model) schema)) [(''age'', FString ''18'')]
              = Inr 18"
    by (simp add: rec obj_get_def)
  have bad: "?transform toRecord (?Struct (Record_map (fields ?model) schema)) [(''age'', FString ''17'')]
              = Inl (ParseError ?tree)"
    by (simp add: rec obj_get_def)
  have fmt: "formatIssue ?AF ?tree
      = [(''age'', \<lparr>actual = Some ''17'', message = Some ''Must be 18 or over''\<rparr>)]"
    by (simp add: formatIssue_def Let_def join_def obj_set_def has_own_def Map_new_def Map_get_def)
  from decodeFormModel_channels[where Schema_transform = ?transform and Schema_Struct = ?Struct
      and formModelSchema = ?model and formData = "[(''age'', FString ''18'')]" and v = 18
      and AF = ?AF, THEN conjunct1, rule_format, OF ok]
  have one: "decodeFormModel ?Struct ?transform ?AF ?model [(''age'', FString ''18'')] = Inr 18" .
  from decodeFormModel_channels[where Schema_transform = ?transform and Schema_Struct = ?Struct
      and formModelSchema = ?model and formData = "[(''age'', FString ''17'')]" and tree = ?tree
      and AF = ?AF, THEN conjunct2, rule_format, OF bad]
  have two: "decodeFormModel ?Struct ?transform ?AF ?model [(''age'', FString ''17'')]
      = Inl (formatIssue ?AF ?tree)" .
  from one two fmt show ?thesis by simp
qed

subsection \<open>C9: joined paths as keys\<close>

text \<open>
  C9: the key of every collected entry is the path of its node, joined with a dot. The
  empty path joins to the empty string, so a leaf at the root has the key \<^verbatim>\<open>""\<close>, in
  the collected entries and in the merged result; a pointer with the segment \<^verbatim>\<open>name\<close>
  under the root has the key \<^verbatim>\<open>name\<close>. Joining appends the rendered segment after a
  dot, without a dot for the first segment.
\<close>

theorem path_join_keys:
  "map fst (collectActualValues tree pre) = map (\<lambda>p. join p ''.'') (node_paths tree pre)
   \<and> join [] ''.'' = ''''
   \<and> join (pre @ [seg]) ''.'' =
       (if pre = [] then ToString seg else join pre ''.'' @ ''.'' @ ToString seg)
   \<and> collectActualValues (Type a) [] = [('''', a)]
   \<and> collectActualValues (Missing a) [] = [('''', a)]
   \<and> collectActualValues (Unexpected a) [] = [('''', a)]
   \<and> collectActualValues (Forbidden a) [] = [('''', a)]
   \<and> collectActualValues (Pointer (Single (KString ''name'')) a child) [] =
       (''name'', a) # collectActualValues child [KString ''name'']
   \<and> formatIssue (\<lambda>t. [\<lparr>path = [], message = m\<rparr>]) (Type a)
       = [('''', \<lparr>actual = a, message = Some m\<rparr>)]
   \<and> formatIssue (\<lambda>t. [\<lparr>path = [KString ''name''], message = m\<rparr>])
         (Pointer (Single (KString ''name'')) a (Type b))
       = [(''name'', \<lparr>actual = b, message = Some m\<rparr>)]"
proof -
  have fmt: "formatIssue (\<lambda>t. [\<lparr>path = [], message = m\<rparr>]) (Type a)
       = [('''', \<lparr>actual = a, message = Some m\<rparr>)]"
    by (simp add: formatIssue_def Let_def join_def obj_set_def has_own_def Map_new_def Map_get_def)
  have fmt2: "formatIssue (\<lambda>t. [\<lparr>path = [KString ''name''], message = m\<rparr>])
         (Pointer (Single (KString ''name'')) a (Type b))
       = [(''name'', \<lparr>actual = b, message = Some m\<rparr>)]"
    by (simp add: formatIssue_def Let_def join_def obj_set_def has_own_def Map_new_def Map_get_def)
  show ?thesis
    by (simp add: collect_keys join_snoc fmt fmt2 Let_def) (simp add: join_def)
qed

text \<open>C9, instance: a pointer with the segments \<^verbatim>\<open>pets\<close> and \<^verbatim>\<open>1\<close>.\<close>

theorem path_join_keys_witness:
  "map fst (collectActualValues
      (Pointer (NonEmpty (KString ''pets'') [KNumber 1]) (Some ''x'') (Type (Some ''y''))) [])
   = [''pets.1'', ''pets.1'']"
proof -
  have one: "string_of_nat (Suc 0) = ''1''" by (subst string_of_nat.simps, simp, code_simp)
  from path_join_keys[of "Pointer (NonEmpty (KString ''pets'') [KNumber 1]) (Some ''x'') (Type (Some ''y''))" "[]",
      THEN conjunct1]
  show ?thesis by (simp add: join_def one)
qed

end
